theory Spec2Isabelle
  imports Complex_Main
begin

section \<open>Constants and numeric helpers of ClawMachine.jsx\<close>

text \<open>
  JavaScript numbers are modelled without rounding: coordinates and sizes are \<open>real\<close>,
  angles in whole degrees (results of \<open>Math.round\<close>) are \<open>int\<close>.
\<close>

definition CORNER_BUFFER :: real where
  "CORNER_BUFFER = 16"

definition MACHINE_BUFFER_x :: real where
  "MACHINE_BUFFER_x = 36"

definition MACHINE_BUFFER_y :: real where
  "MACHINE_BUFFER_y = 16"

text \<open>The \<open>%\<close> operator of JavaScript on integers: the result has the sign of the dividend.\<close>

definition js_rem :: "int \<Rightarrow> int \<Rightarrow> int" where
  "js_rem a b = sgn a * (\<bar>a\<bar> mod \<bar>b\<bar>)"

definition calcX :: "nat \<Rightarrow> nat \<Rightarrow> nat" where
  "calcX i n = i mod n"

definition calcY :: "nat \<Rightarrow> nat \<Rightarrow> nat" where
  "calcY i n = i div n"

definition adjustAngle :: "int \<Rightarrow> int" where
  "adjustAngle angle = (let a = js_rem angle 360 in if a < 0 then a + 360 else a)"

text \<open>
  The last two lines of the computation in \<open>setRotateAngle\<close>, as a function of the raw
  angle \<open>radToDeg(Math.atan2(...)) - 90\<close>. \<open>Math.round\<close> of an integer is the integer.
\<close>

definition rotateAngle :: "int \<Rightarrow> int" where
  "rotateAngle angle =
     (let adjusted = adjustAngle angle
      in if adjusted < 180 then adjusted * (- 1) else 360 - adjusted)"

text \<open>
  The rule as the specification words it: fold into \<open>[0, 360)\<close>, keep values below 180,
  map the others to \<open>value - 360\<close>.
\<close>

definition spec_normalize :: "int \<Rightarrow> int" where
  "spec_normalize theta = (let v = theta mod 360 in if v < 180 then v else v - 360)"

section \<open>Data model\<close>

text \<open>
  Objects are shared by reference in the source (the same toy object sits in
  \<open>g.toyEls\<close>, in \<open>g.targetToy\<close> and in the \<open>moveWith\<close> arrays), so the model has
  an explicit store from references to objects.
\<close>

datatype ref = ArmJoint | VertRail | Arm | Toy nat

text \<open>The values of \<open>moveKey\<close> that the source passes: \<open>'x'\<close>, \<open>'y'\<close> and \<open>'h'\<close>.\<close>

datatype attr = X | Y | H

datatype origin = Point real real | Named string

text \<open>
  The completion callbacks. \<open>StopHoriBtnAndActivateVertBtn\<close> is the function of that
  name. \<open>External n\<close> stands for any other function passed as \<open>next\<close>: its invocation
  is recorded, and what its body does is a later event of the event loop below (the
  continuations chained in \<open>onVertBtnUp\<close> and in the mount effect call \<open>resumeMove\<close>,
  \<open>grabToy\<close>, \<open>dropToy\<close> and \<open>activateHoriBtn\<close>, which are events there).
\<close>

datatype callback = StopHoriBtnAndActivateVertBtn | External nat

record pose =
  pose_x :: real
  pose_y :: real
  pose_w :: real
  pose_h :: real

text \<open>
  A world object or a toy. The fields \<open>toyType\<close>, \<open>index\<close> and \<open>clawPos\<close> exist on toys
  only; \<open>classList\<close> is the class list of the object's DOM element.
\<close>

record wobj =
  obj_x :: real
  obj_y :: real
  obj_z :: real
  obj_w :: real
  obj_h :: real
  angle :: int
  transformOrigin :: origin
  interval :: "nat option"
  default_pose :: pose
  moveWith :: "ref option list"
  toyType :: string
  index :: nat
  clawPos :: "(real \<times> real) option"
  classList :: "string set"

text \<open>The argument object of \<open>moveObject\<close>; an absent property is \<open>None\<close>.\<close>

record moveOpts =
  moveKey :: attr
  target :: "real option"
  moveTime :: "nat option"
  next_cb :: "callback option"

text \<open>
  A live interval timer of the JavaScript runtime: what the closure passed to
  \<open>setInterval\<close> captured, and its period.
\<close>

record timer =
  t_obj :: ref
  t_key :: attr
  t_target :: real
  t_next :: "callback option"
  t_period :: nat

record size =
  size_w :: real
  size_h :: real

record btn =
  active :: bool
  locked :: bool

text \<open>
  The game state \<open>gameRef.current\<close>, followed by the parts of the environment the code
  acts on: the runtime's table of live interval timers and the last handle it issued, the
  log of invoked completion callbacks, the two buttons, the collection arrow and
  collection box of the DOM, and the outbound messages.
  \<open>objects\<close> is the store of all objects, the three machine parts and the toys.
\<close>

record session =
  toys :: "string \<rightharpoonup> size"
  sortedToys :: "string list"
  toyEls :: "ref list"
  targetToy :: "ref option"
  collectedNumber :: nat
  turnUsed :: bool
  remainingTurns :: int
  maxArmLength :: real
  machineWidth :: real
  machineHeight :: real
  machineTop :: real
  machineTopHeight :: real
  machineBottomHeight :: real
  machineBottomTop :: real
  objects :: "ref \<Rightarrow> wobj"
  intervals :: "nat set"
  timers :: "nat \<rightharpoonup> timer"
  lastTimerId :: nat
  invoked :: "callback list"
  horiBtn :: btn
  vertBtn :: btn
  collectionArrowActive :: bool
  collectionBox :: "string list"
  collectPosts :: "string list"
  turnCompleteMsgs :: nat

text \<open>An event handler either returns or stops at an uncaught exception; both carry the state reached.\<close>

datatype outcome = Returned session | Threw session

fun final :: "outcome \<Rightarrow> session" where
  "final (Returned s) = s"
| "final (Threw s) = s"

section \<open>Positioned objects\<close>

definition getAttr :: "attr \<Rightarrow> wobj \<Rightarrow> real" where
  "getAttr k ob = (case k of X \<Rightarrow> obj_x ob | Y \<Rightarrow> obj_y ob | H \<Rightarrow> obj_h ob)"

text \<open>The assignment \<open>ob[k] += d\<close>.\<close>

definition addAttr :: "attr \<Rightarrow> real \<Rightarrow> wobj \<Rightarrow> wobj" where
  "addAttr k d ob =
     (case k of
        X \<Rightarrow> ob\<lparr>obj_x := obj_x ob + d\<rparr>
      | Y \<Rightarrow> ob\<lparr>obj_y := obj_y ob + d\<rparr>
      | H \<Rightarrow> ob\<lparr>obj_h := obj_h ob + d\<rparr>)"

definition defaultAttr :: "attr \<Rightarrow> wobj \<Rightarrow> real" where
  "defaultAttr k ob =
     (case k of
        X \<Rightarrow> pose_x (default_pose ob)
      | Y \<Rightarrow> pose_y (default_pose ob)
      | H \<Rightarrow> pose_h (default_pose ob))"

text \<open>
  \<open>createWorldObject(el)\<close> with no \<open>props\<close>; \<open>rw\<close> and \<open>rh\<close> are the width and height of
  the element's bounding rectangle.
\<close>

definition createWorldObject :: "real \<Rightarrow> real \<Rightarrow> wobj" where
  "createWorldObject rw rh =
     \<lparr>obj_x = 0, obj_y = 0, obj_z = 0, obj_w = rw, obj_h = rh, angle = 0,
      transformOrigin = Point 0 0, interval = None,
      default_pose = \<lparr>pose_x = 0, pose_y = 0, pose_w = rw, pose_h = rh\<rparr>,
      moveWith = [], toyType = [], index = 0, clawPos = None, classList = {}\<rparr>"

definition updObj :: "ref \<Rightarrow> (wobj \<Rightarrow> wobj) \<Rightarrow> session \<Rightarrow> session" where
  "updObj r f s = s\<lparr>objects := (objects s)(r := f (objects s r))\<rparr>"

text \<open>
  The assignment \<open>arr[0] = v\<close>: a JavaScript array grows when the index is its length.
\<close>

definition setFirst :: "'a \<Rightarrow> 'a list \<Rightarrow> 'a list" where
  "setFirst v xs = (case xs of [] \<Rightarrow> [v] | _ # rest \<Rightarrow> v # rest)"

section \<open>Movement scheduler\<close>

definition clearObjInterval :: "ref \<Rightarrow> session \<Rightarrow> session" where
  "clearObjInterval obj s =
     (case interval (objects s obj) of
        None \<Rightarrow> s
      | Some i \<Rightarrow>
          s\<lparr>timers := (timers s)(i := None),
            intervals := intervals s - {i},
            objects := (objects s)(obj := (objects s obj)\<lparr>interval := None\<rparr>)\<rparr>)"

definition activateBtn :: "btn \<Rightarrow> btn" where
  "activateBtn b = b\<lparr>active := True, locked := False\<rparr>"

definition deactivateBtn :: "btn \<Rightarrow> btn" where
  "deactivateBtn b = b\<lparr>active := False, locked := True\<rparr>"

definition stopHoriBtnAndActivateVertBtn :: "session \<Rightarrow> session" where
  "stopHoriBtnAndActivateVertBtn s =
     (let s1 = updObj ArmJoint (\<lambda>ob. ob\<lparr>interval := None\<rparr>) s
      in s1\<lparr>horiBtn := deactivateBtn (horiBtn s1), vertBtn := activateBtn (vertBtn s1)\<rparr>)"

text \<open>The call \<open>next()\<close>: the invocation is logged, then the callback's body runs.\<close>

definition invoke :: "callback \<Rightarrow> session \<Rightarrow> session" where
  "invoke cb s =
     (let s1 = s\<lparr>invoked := invoked s @ [cb]\<rparr>
      in case cb of
           StopHoriBtnAndActivateVertBtn \<Rightarrow> stopHoriBtnAndActivateVertBtn s1
         | External n \<Rightarrow> s1)"

definition invokeOpt :: "callback option \<Rightarrow> session \<Rightarrow> session" where
  "invokeOpt nxt s = (case nxt of None \<Rightarrow> s | Some cb \<Rightarrow> invoke cb s)"

text \<open>
  Handles returned by \<open>setInterval\<close> are positive integers, so the test
  \<open>if (obj.interval)\<close> is the test for a handle being stored.
\<close>

definition moveObject :: "ref \<Rightarrow> moveOpts \<Rightarrow> session \<Rightarrow> session" where
  "moveObject obj opts s =
     (case interval (objects s obj) of
        Some i \<Rightarrow> invokeOpt (next_cb opts) (clearObjInterval obj s)
      | None \<Rightarrow>
          (let moveTarget =
                 (case target opts of
                    Some t \<Rightarrow> t
                  | None \<Rightarrow> defaultAttr (moveKey opts) (objects s obj));
               i = Suc (lastTimerId s);
               period = (case moveTime opts of
                           None \<Rightarrow> 100
                         | Some p \<Rightarrow> if p = 0 then 100 else p)
           in s\<lparr>timers := (timers s)(i \<mapsto>
                   \<lparr>t_obj = obj, t_key = moveKey opts, t_target = moveTarget,
                    t_next = next_cb opts, t_period = period\<rparr>),
                 lastTimerId := i,
                 objects := (objects s)(obj := (objects s obj)\<lparr>interval := Some i\<rparr>),
                 intervals := insert i (intervals s)\<rparr>))"

definition resumeMove :: "ref \<Rightarrow> moveOpts \<Rightarrow> session \<Rightarrow> session" where
  "resumeMove obj opts s = moveObject obj opts (updObj obj (\<lambda>ob. ob\<lparr>interval := None\<rparr>) s)"

text \<open>The attribute of a passenger that a step of the driver's attribute \<open>k\<close> is added to.\<close>

definition passengerAttr :: "attr \<Rightarrow> attr" where
  "passengerAttr k = (if k = H then Y else k)"

text \<open>The body of \<open>obj.moveWith.forEach\<close> for one entry.\<close>

definition moveEntry :: "attr \<Rightarrow> real \<Rightarrow> session \<Rightarrow> ref option \<Rightarrow> session" where
  "moveEntry k increment s m =
     (case m of
        None \<Rightarrow> s
      | Some r \<Rightarrow> updObj r (addAttr (passengerAttr k) increment) s)"

definition stepDistance :: "real \<Rightarrow> real \<Rightarrow> real" where
  "stepDistance cur tgt = (if \<bar>cur - tgt\<bar> < 10 then \<bar>cur - tgt\<bar> else 10)"

definition stepIncrement :: "real \<Rightarrow> real \<Rightarrow> real" where
  "stepIncrement cur tgt = (if cur > tgt then - stepDistance cur tgt else stepDistance cur tgt)"

definition shouldMove :: "real \<Rightarrow> real \<Rightarrow> bool" where
  "shouldMove cur tgt = (if stepIncrement cur tgt > 0 then cur < tgt else cur > tgt)"

text \<open>
  One run of the closure passed to \<open>setInterval\<close>, up to but not including the final
  call of \<open>next\<close>: the new state and the callback that the closure calls last, if any.
\<close>

definition tickBody :: "timer \<Rightarrow> session \<Rightarrow> session \<times> callback option" where
  "tickBody t s =
     (let obj = t_obj t; k = t_key t;
          cur = getAttr k (objects s obj);
          increment = stepIncrement cur (t_target t)
      in if shouldMove cur (t_target t)
         then (let s1 = updObj obj (addAttr k increment) s
               in (foldl (moveEntry k increment) s1 (moveWith (objects s1 obj)), None))
         else (clearObjInterval obj s, t_next t))"

text \<open>The runtime fires the timer with handle \<open>i\<close>; a cleared timer does not fire.\<close>

definition tick :: "nat \<Rightarrow> session \<Rightarrow> session" where
  "tick i s =
     (case timers s i of
        None \<Rightarrow> s
      | Some t \<Rightarrow> (case tickBody t s of (s1, nxt) \<Rightarrow> invokeOpt nxt s1))"

fun ticks :: "nat \<Rightarrow> nat \<Rightarrow> session \<Rightarrow> session" where
  "ticks i 0 s = s"
| "ticks i (Suc n) s = ticks i n (tick i s)"

section \<open>Toys\<close>

definition classAdd :: "string \<Rightarrow> wobj \<Rightarrow> wobj" where
  "classAdd c ob = ob\<lparr>classList := insert c (classList ob)\<rparr>"

definition classRemove :: "string \<Rightarrow> wobj \<Rightarrow> wobj" where
  "classRemove c ob = ob\<lparr>classList := classList ob - {c}\<rparr>"

text \<open>
  \<open>createToy(index)\<close>; \<open>jx\<close> and \<open>jy\<close> are the values of \<open>randomN(-6, 6)\<close> and
  \<open>randomN(-2, 2)\<close>. The new object gets the next unused toy reference. The sprite
  properties of the element are not modelled. Where the source returns \<open>null\<close> the
  state is unchanged.
\<close>

definition createToy :: "nat \<Rightarrow> real \<Rightarrow> real \<Rightarrow> session \<Rightarrow> session" where
  "createToy idx jx jy s =
     (if idx < length (sortedToys s)
      then (case toys s (sortedToys s ! idx) of
              None \<Rightarrow> s
            | Some sz \<Rightarrow>
                (let tx = CORNER_BUFFER
                          + real (calcX idx 4) * ((machineWidth s - CORNER_BUFFER * 3) / 4)
                          + size_w sz / 2 + jx;
                     ty = machineBottomTop s - machineTop s + CORNER_BUFFER
                          + real (calcY idx 4) * ((machineBottomHeight s - CORNER_BUFFER * 2) / 3)
                          - size_h sz / 2 + jy;
                     r = Toy (length (toyEls s))
                 in s\<lparr>objects := (objects s)(r :=
                         \<lparr>obj_x = tx, obj_y = ty, obj_z = 0, obj_w = size_w sz, obj_h = size_h sz,
                          angle = 0, transformOrigin = Point 0 0, interval = None,
                          default_pose = \<lparr>pose_x = tx, pose_y = ty,
                                          pose_w = size_w sz, pose_h = size_h sz\<rparr>,
                          moveWith = [], toyType = sortedToys s ! idx, index = idx,
                          clawPos = None,
                          classList = {''toy'', ''pix'', sortedToys s ! idx}\<rparr>),
                       toyEls := toyEls s @ [r]\<rparr>))
      else s)"

text \<open>
  \<open>collectToy(toy)\<close>. The \<open>fetch\<close> is recorded in \<open>collectPosts\<close>. Reading
  \<open>toyData.sw\<close> throws when the catalog has no entry for the toy's type; the mutations
  made before that stay.
\<close>

definition collectToy :: "ref \<Rightarrow> session \<Rightarrow> outcome" where
  "collectToy toy s =
     (let s1 = updObj toy
                 (\<lambda>ob. classAdd ''display''
                    ((classRemove ''selected'' ob)
                       \<lparr>obj_x := machineWidth s / 2 - obj_w ob / 2,
                        obj_y := machineHeight s / 2 - obj_h ob / 2,
                        obj_z := 7,
                        transformOrigin := Named ''center''\<rparr>)) s;
          s2 = s1\<lparr>collectedNumber := collectedNumber s1 + 1,
                  collectPosts := collectPosts s1 @ [toyType (objects s1 toy)]\<rparr>
      in case toys s2 (toyType (objects s2 toy)) of
           None \<Rightarrow> Threw s2
         | Some d \<Rightarrow>
             Returned (s2\<lparr>collectionBox := collectionBox s2 @ [toyType (objects s2 toy)]\<rparr>))"

text \<open>
  The function \<open>collectToy\<close> schedules: the collection arrow is switched off when no
  element has the class \<open>selected\<close>. Only toys are ever given that class.
\<close>

definition collectToyTimeout :: "session \<Rightarrow> session" where
  "collectToyTimeout s =
     (if list_ex (\<lambda>t. ''selected'' \<in> classList (objects s t)) (toyEls s) then s
      else s\<lparr>collectionArrowActive := False\<rparr>)"

text \<open>The listener that \<open>createToy\<close> registers on the toy's element: every click runs it.\<close>

definition onToyClick :: "ref \<Rightarrow> session \<Rightarrow> session" where
  "onToyClick toy s = final (collectToy toy s)"

fun clicks :: "ref \<Rightarrow> nat \<Rightarrow> session \<Rightarrow> session" where
  "clicks toy 0 s = s"
| "clicks toy (Suc n) s = clicks toy n (onToyClick toy s)"

text \<open>
  \<open>setRotateAngle(toy)\<close>; \<open>atan2deg dy dx\<close> stands for
  \<open>radToDeg(Math.atan2(dy, dx))\<close>. Reading \<open>toy.clawPos.y\<close> throws when \<open>clawPos\<close> is
  \<open>null\<close>.
\<close>

definition setRotateAngle :: "(real \<Rightarrow> real \<Rightarrow> int) \<Rightarrow> ref \<Rightarrow> session \<Rightarrow> outcome" where
  "setRotateAngle atan2deg toy s =
     (let ob = objects s toy
      in case clawPos ob of
           None \<Rightarrow> Threw s
         | Some (cx, cy) \<Rightarrow>
             (let raw = atan2deg (obj_y ob + obj_h ob / 2 - cy) (obj_x ob + obj_w ob / 2 - cx) - 90
              in Returned (updObj toy (\<lambda>tb. tb\<lparr>angle := rotateAngle raw\<rparr>) s)))"

section \<open>Targeting\<close>

record rect =
  rect_x :: real
  rect_y :: real
  rect_w :: real
  rect_h :: real

definition rectOf :: "wobj \<Rightarrow> rect" where
  "rectOf ob = \<lparr>rect_x = obj_x ob, rect_y = obj_y ob, rect_w = obj_w ob, rect_h = obj_h ob\<rparr>"

definition doOverlap :: "rect \<Rightarrow> rect \<Rightarrow> bool" where
  "doOverlap a b =
     (rect_x b > rect_x a \<and> rect_x b < rect_x a + rect_w a
      \<and> rect_y b > rect_y a \<and> rect_y b < rect_y a + rect_h a)"

definition clawRect :: "session \<Rightarrow> rect" where
  "clawRect s =
     (let armJoint = objects s ArmJoint
      in \<lparr>rect_x = obj_x armJoint + 7,
          rect_y = obj_y armJoint + maxArmLength s + MACHINE_BUFFER_y + 7,
          rect_w = 40, rect_h = 32\<rparr>)"

text \<open>
  \<open>getClosestToy\<close>. \<open>Array.prototype.sort\<close> is stable, and so is \<open>sort_key\<close>; the
  comparator \<open>b.index - a.index\<close> orders by descending index.
\<close>

definition getClosestToy :: "session \<Rightarrow> session" where
  "getClosestToy s =
     (let claw = clawRect s;
          overlapped = filter (\<lambda>t. doOverlap (rectOf (objects s t)) claw) (toyEls s)
      in if overlapped = [] then s
         else (case sort_key (\<lambda>t. - int (index (objects s t))) overlapped of
                 [] \<Rightarrow> s
               | toy # rest \<Rightarrow>
                   (updObj toy
                      (\<lambda>ob. ob\<lparr>transformOrigin :=
                                  Point (rect_x claw - obj_x ob) (rect_y claw - obj_y ob),
                                clawPos := Some (rect_x claw, rect_y claw)\<rparr>) s)
                   \<lparr>targetToy := Some toy\<rparr>))"

section \<open>Arm sequencer\<close>

definition activateHoriBtn :: "session \<Rightarrow> session" where
  "activateHoriBtn s =
     (if remainingTurns s \<le> 0 then s
      else foldl (\<lambda>s1 c. clearObjInterval c s1)
             (s\<lparr>turnUsed := False, horiBtn := activateBtn (horiBtn s)\<rparr>)
             [VertRail, ArmJoint, Arm])"

text \<open>The assignment \<open>obj.moveWith[0] = v\<close>.\<close>

definition setPassenger :: "ref option \<Rightarrow> session \<Rightarrow> ref \<Rightarrow> session" where
  "setPassenger v s obj = updObj obj (\<lambda>ob. ob\<lparr>moveWith := setFirst v (moveWith ob)\<rparr>) s"

text \<open>\<open>dropToy\<close> up to the \<open>setTimeout\<close>, and the function it schedules.\<close>

definition dropToy :: "session \<Rightarrow> session" where
  "dropToy s =
     (let s1 = updObj Arm (classAdd ''open'') s
      in case targetToy s1 of
           None \<Rightarrow> s1
         | Some t \<Rightarrow>
             (let s2 = updObj t (\<lambda>ob. ob\<lparr>obj_z := 3\<rparr>) s1;
                  s3 = moveObject t
                         \<lparr>moveKey = Y,
                          target = Some (machineHeight s2 - obj_h (objects s2 t) - 30),
                          moveTime = Some 50, next_cb = None\<rparr> s2
              in foldl (setPassenger None) s3 [VertRail, ArmJoint, Arm]))"

definition dropToyTimeout :: "session \<Rightarrow> session" where
  "dropToyTimeout s =
     (let s1 = updObj Arm (classRemove ''open'') s;
          s2 = s1\<lparr>turnUsed := True, remainingTurns := remainingTurns s1 - 1,
                  turnCompleteMsgs := turnCompleteMsgs s1 + 1\<rparr>;
          s3 = activateHoriBtn s2
      in case targetToy s3 of
           None \<Rightarrow> s3
         | Some t \<Rightarrow>
             (updObj t (classAdd ''selected'') s3)
             \<lparr>collectionArrowActive := True, targetToy := None\<rparr>)"

definition grabToy :: "(real \<Rightarrow> real \<Rightarrow> int) \<Rightarrow> session \<Rightarrow> outcome" where
  "grabToy atan2deg s =
     (case targetToy s of
        Some t \<Rightarrow>
          (let s1 = foldl (setPassenger (Some t)) s [VertRail, ArmJoint, Arm]
           in case setRotateAngle atan2deg t s1 of
                Threw s2 \<Rightarrow> Threw s2
              | Returned s2 \<Rightarrow> Returned (updObj t (classAdd ''grabbed'') s2))
      | None \<Rightarrow> Returned (updObj Arm (classAdd ''missed'') s))"

definition onHoriBtnDown :: "session \<Rightarrow> session" where
  "onHoriBtnDown s =
     (let s1 = updObj Arm (classRemove ''missed'') s
      in moveObject VertRail
           \<lparr>moveKey = X,
            target = Some (machineWidth s1 - obj_w (objects s1 ArmJoint) - MACHINE_BUFFER_x),
            moveTime = None, next_cb = Some StopHoriBtnAndActivateVertBtn\<rparr> s1)"

definition onHoriBtnUp :: "session \<Rightarrow> session" where
  "onHoriBtnUp s = stopHoriBtnAndActivateVertBtn (clearObjInterval VertRail s)"

definition onVertBtnDown :: "session \<Rightarrow> session" where
  "onVertBtnDown s =
     (if locked (vertBtn s) then s
      else moveObject ArmJoint
             \<lparr>moveKey = Y, target = Some MACHINE_BUFFER_y, moveTime = None, next_cb = None\<rparr> s)"

text \<open>
  \<open>onVertBtnUp\<close> up to its \<open>setTimeout\<close>; the functions it schedules are calls of
  \<open>moveObject\<close>, \<open>grabToy\<close>, \<open>resumeMove\<close> and \<open>dropToy\<close>.
\<close>

definition onVertBtnUp :: "session \<Rightarrow> session" where
  "onVertBtnUp s =
     (let s1 = clearObjInterval ArmJoint s
      in getClosestToy (s1\<lparr>vertBtn := deactivateBtn (vertBtn s1)\<rparr>))"

text \<open>The handler of the \<open>TURNS_UPDATED\<close> message.\<close>

definition turnsUpdated :: "int \<Rightarrow> session \<Rightarrow> session" where
  "turnsUpdated n s = s\<lparr>remainingTurns := n\<rparr>"

section \<open>Mounting\<close>

text \<open>The measurements the mount effect reads from the DOM.\<close>

record dom =
  machineRect_width :: real
  machineRect_height :: real
  machineRect_top :: real
  mtRect_height :: real
  mbRect_height :: real
  mbRect_top :: real
  armJointRect :: "real \<times> real"
  vertRailRect :: "real \<times> real"
  armRect :: "real \<times> real"

text \<open>
  The initial value of \<open>gameRef\<close> and the mount effect up to the assignment of
  \<open>g.objects\<close>: the measurements, the three world objects and the rail's \<open>moveWith\<close>.
  Both buttons are rendered with \<open>data-locked="true"\<close>.
\<close>

definition mountObjects :: "dom \<Rightarrow> session" where
  "mountObjects d =
     (let armJoint = createWorldObject (fst (armJointRect d)) (snd (armJointRect d));
          vertRail = createWorldObject (fst (vertRailRect d)) (snd (vertRailRect d));
          arm = createWorldObject (fst (armRect d)) (snd (armRect d))
      in \<lparr>toys = Map.empty, sortedToys = [], toyEls = [], targetToy = None,
          collectedNumber = 0, turnUsed = False, remainingTurns = 0,
          maxArmLength = mbRect_top d - machineRect_top d - MACHINE_BUFFER_y,
          machineWidth = machineRect_width d, machineHeight = machineRect_height d,
          machineTop = machineRect_top d, machineTopHeight = mtRect_height d,
          machineBottomHeight = mbRect_height d, machineBottomTop = mbRect_top d,
          objects = (\<lambda>r. createWorldObject 0 0)
                      (ArmJoint := armJoint,
                       VertRail := vertRail\<lparr>moveWith := [None, Some ArmJoint]\<rparr>,
                       Arm := arm),
          intervals = {}, timers = Map.empty, lastTimerId = 0, invoked = [],
          horiBtn = \<lparr>active = False, locked = True\<rparr>,
          vertBtn = \<lparr>active = False, locked = True\<rparr>,
          collectionArrowActive = False, collectionBox = [], collectPosts = [],
          turnCompleteMsgs = 0\<rparr>)"

text \<open>
  The rest of the mount effect starts the initial animation of the arm joint; its
  continuation is \<open>External 0\<close>. Fetching and creating the toys are later events.
\<close>

definition mountEffect :: "dom \<Rightarrow> session" where
  "mountEffect d =
     (let s = mountObjects d
      in moveObject ArmJoint
           \<lparr>moveKey = Y, target = Some (machineTopHeight s - MACHINE_BUFFER_y),
            moveTime = Some 50, next_cb = Some (External 0)\<rparr> s)"

section \<open>The event loop\<close>

text \<open>
  The runtime runs one handler at a time: a timer fires, a button or a toy is pressed, a
  scheduled function runs, \<open>fetchToys\<close> stores the catalog and the spawn order, a message
  arrives. The continuations the source chains through \<open>next\<close> and \<open>setTimeout\<close>, in
  \<open>onVertBtnUp\<close> and in the mount effect, are sequences of these events.
\<close>

datatype event =
    EvTick nat
  | EvMoveObject ref moveOpts
  | EvResumeMove ref moveOpts
  | EvClearObjInterval ref
  | EvHoriBtnDown
  | EvHoriBtnUp
  | EvVertBtnDown
  | EvVertBtnUp
  | EvGetClosestToy
  | EvGrabToy "real \<Rightarrow> real \<Rightarrow> int"
  | EvDropToy
  | EvDropToyTimeout
  | EvActivateHoriBtn
  | EvCreateToy nat real real
  | EvToyClick ref
  | EvCollectToyTimeout
  | EvTurnsUpdated int
  | EvCatalog "string \<rightharpoonup> size" "string list"

definition step :: "session \<Rightarrow> event \<Rightarrow> session" where
  "step s e =
     (case e of
        EvTick i \<Rightarrow> tick i s
      | EvMoveObject r opts \<Rightarrow> moveObject r opts s
      | EvResumeMove r opts \<Rightarrow> resumeMove r opts s
      | EvClearObjInterval r \<Rightarrow> clearObjInterval r s
      | EvHoriBtnDown \<Rightarrow> onHoriBtnDown s
      | EvHoriBtnUp \<Rightarrow> onHoriBtnUp s
      | EvVertBtnDown \<Rightarrow> onVertBtnDown s
      | EvVertBtnUp \<Rightarrow> onVertBtnUp s
      | EvGetClosestToy \<Rightarrow> getClosestToy s
      | EvGrabToy f \<Rightarrow> final (grabToy f s)
      | EvDropToy \<Rightarrow> dropToy s
      | EvDropToyTimeout \<Rightarrow> dropToyTimeout s
      | EvActivateHoriBtn \<Rightarrow> activateHoriBtn s
      | EvCreateToy idx jx jy \<Rightarrow> createToy idx jx jy s
      | EvToyClick r \<Rightarrow> onToyClick r s
      | EvCollectToyTimeout \<Rightarrow> collectToyTimeout s
      | EvTurnsUpdated n \<Rightarrow> turnsUpdated n s
      | EvCatalog cat order \<Rightarrow> s\<lparr>toys := cat, sortedToys := order\<rparr>)"

definition run :: "event list \<Rightarrow> session \<Rightarrow> session" where
  "run evs s = foldl step s evs"

section \<open>Shape of the attached-object lists\<close>

text \<open>The number of objects in a \<open>moveWith\<close> array, \<open>null\<close> entries not counted.\<close>

definition objectCount :: "ref option list \<Rightarrow> nat" where
  "objectCount ms = length (filter (\<lambda>m. m \<noteq> None) ms)"

text \<open>
  The rail's array has two slots and the second holds the arm joint; the joint's and the
  arm's arrays have at most one slot; a toy's array is empty.
\<close>

definition attachShape :: "session \<Rightarrow> bool" where
  "attachShape s =
     ((case moveWith (objects s VertRail) of
         [m, j] \<Rightarrow> j = Some ArmJoint
       | _ \<Rightarrow> False)
      \<and> length (moveWith (objects s ArmJoint)) \<le> 1
      \<and> length (moveWith (objects s Arm)) \<le> 1
      \<and> (\<forall>n. moveWith (objects s (Toy n)) = []))"

section \<open>Example sessions\<close>

text \<open>A machine of 400 by 600 units.\<close>

definition exampleDom :: dom where
  "exampleDom =
     \<lparr>machineRect_width = 400, machineRect_height = 600, machineRect_top = 0,
      mtRect_height = 100, mbRect_height = 332, mbRect_top = 216,
      armJointRect = (40, 40), vertRailRect = (10, 100), armRect = (30, 50)\<rparr>"

text \<open>A move of the rail's \<open>x\<close> from 0 toward 100 with a completion callback.\<close>

definition exampleOpts :: moveOpts where
  "exampleOpts = \<lparr>moveKey = X, target = Some 100, moveTime = None, next_cb = Some (External 0)\<rparr>"

definition exampleStarted :: session where
  "exampleStarted = moveObject VertRail exampleOpts (mountObjects exampleDom)"

definition exampleCancelled :: session where
  "exampleCancelled = clearObjInterval VertRail (ticks 1 3 exampleStarted)"

definition exampleResumed :: session where
  "exampleResumed = resumeMove VertRail exampleOpts exampleCancelled"

text \<open>
  Two toys of 100 by 200 units in the cells 3 and 7 of the grid, which lie in the same
  column, and the arm joint placed so that the claw's anchor (337, 239) is inside both.
\<close>

definition exampleToys :: session where
  "exampleToys =
     createToy 7 0 0
       (createToy 3 0 0
          ((mountObjects exampleDom)
             \<lparr>toys := [''bear'' \<mapsto> \<lparr>size_w = 100, size_h = 200\<rparr>],
              sortedToys := replicate 12 ''bear''\<rparr>))"

definition exampleAim :: session where
  "exampleAim = updObj ArmJoint (\<lambda>ob. ob\<lparr>obj_x := 330, obj_y := 16\<rparr>) exampleToys"

text \<open>
  The toy of cell 7 targeted and grabbed. Its centre is 43 right of and 93 below the
  claw's anchor, and \<open>Math.atan2(93, 43)\<close> is 65 degrees after rounding.
\<close>

definition exampleGrabbed :: session where
  "exampleGrabbed = final (grabToy (\<lambda>dy dx. 65) (getClosestToy exampleAim))"

text \<open>With the toy attached, the arm extends toward 200 and the rail travels toward 100.\<close>

definition exampleExtending :: session where
  "exampleExtending =
     moveObject Arm \<lparr>moveKey = H, target = Some 200, moveTime = None, next_cb = None\<rparr>
       exampleGrabbed"

definition exampleCarrying :: session where
  "exampleCarrying =
     moveObject VertRail \<lparr>moveKey = X, target = Some 100, moveTime = None, next_cb = None\<rparr>
       exampleGrabbed"

section \<open>Evaluation rules and basic facts\<close>

lemmas model_defs =
  mountObjects_def exampleDom_def createWorldObject_def moveObject_def tick_def tickBody_def
  clearObjInterval_def invokeOpt_def invoke_def updObj_def moveEntry_def addAttr_def
  getAttr_def passengerAttr_def stepIncrement_def stepDistance_def shouldMove_def
  resumeMove_def defaultAttr_def Let_def MACHINE_BUFFER_y_def MACHINE_BUFFER_x_def
  CORNER_BUFFER_def createToy_def calcX_def calcY_def getClosestToy_def clawRect_def
  rectOf_def doOverlap_def grabToy_def setRotateAngle_def setPassenger_def setFirst_def
  classAdd_def classRemove_def dropToy_def objectCount_def rotateAngle_def adjustAngle_def
  js_rem_def stopHoriBtnAndActivateVertBtn_def activateBtn_def deactivateBtn_def
  onHoriBtnDown_def collectToy_def onToyClick_def

lemmas example_defs =
  exampleOpts_def exampleStarted_def exampleCancelled_def exampleResumed_def
  exampleToys_def exampleAim_def exampleGrabbed_def exampleExtending_def exampleCarrying_def

lemma addAttr_zero: "addAttr k 0 ob = ob"
  by (cases k) (simp_all add: addAttr_def)

lemma addAttr_add: "addAttr k d (addAttr k e ob) = addAttr k (e + d) ob"
  by (cases k) (simp_all add: addAttr_def add.assoc)

lemma addAttr_fields [simp]:
  "obj_z (addAttr k d ob) = obj_z ob"
  "obj_w (addAttr k d ob) = obj_w ob"
  "moveWith (addAttr k d ob) = moveWith ob"
  "interval (addAttr k d ob) = interval ob"
  "angle (addAttr k d ob) = angle ob"
  by (cases k; simp add: addAttr_def)+

lemma getAttr_addAttr:
  "getAttr a (addAttr k d ob) = (if a = k then getAttr a ob + d else getAttr a ob)"
  by (cases a; cases k) (simp_all add: getAttr_def addAttr_def)

text \<open>
  The \<open>forEach\<close> over the attached list adds the step to each entry's attribute once per
  occurrence of the entry, and touches nothing else.
\<close>

lemma foldl_moveEntry:
  "foldl (moveEntry k d) s xs =
     s\<lparr>objects := (\<lambda>r. addAttr (passengerAttr k) (d * real (count_list xs (Some r))) (objects s r))\<rparr>"
proof (induction xs arbitrary: s)
  case Nil
  then show ?case by (simp add: addAttr_zero)
next
  case (Cons m ms)
  show ?case
  proof (cases m)
    case None
    then show ?thesis using Cons.IH [of s] by (simp add: moveEntry_def)
  next
    case (Some q)
    have "foldl (moveEntry k d) s (m # ms)
            = foldl (moveEntry k d) (updObj q (addAttr (passengerAttr k) d) s) ms"
      using Some by (simp add: moveEntry_def)
    also have "\<dots> = s\<lparr>objects := (\<lambda>r. addAttr (passengerAttr k)
                         (d * real (count_list (m # ms) (Some r))) (objects s r))\<rparr>"
      unfolding Cons.IH using Some
      by (auto simp: updObj_def fun_eq_iff addAttr_add algebra_simps)
    finally show ?thesis .
  qed
qed

subsection \<open>Callbacks and cancellation leave positions alone\<close>

lemma invoke_attr: "getAttr k (objects (invoke cb s) r) = getAttr k (objects s r)"
  by (cases cb; cases k)
     (simp_all add: invoke_def stopHoriBtnAndActivateVertBtn_def updObj_def getAttr_def Let_def)

lemma invoke_y_h:
  "obj_y (objects (invoke cb s) r) = obj_y (objects s r)"
  "obj_h (objects (invoke cb s) r) = obj_h (objects s r)"
  by (cases cb; simp add: invoke_def stopHoriBtnAndActivateVertBtn_def updObj_def Let_def)+

lemma invoke_timers: "timers (invoke cb s) = timers s"
  by (cases cb) (simp_all add: invoke_def stopHoriBtnAndActivateVertBtn_def updObj_def Let_def)


lemma invoke_invoked: "invoked (invoke cb s) = invoked s @ [cb]"
  by (cases cb) (simp_all add: invoke_def stopHoriBtnAndActivateVertBtn_def updObj_def Let_def)


lemma invoke_moveWith: "moveWith (objects (invoke cb s) r) = moveWith (objects s r)"
  by (cases cb) (simp_all add: invoke_def stopHoriBtnAndActivateVertBtn_def updObj_def Let_def)

lemma clearObjInterval_Some:
  "interval (objects s obj) = Some i \<Longrightarrow>
   clearObjInterval obj s =
     s\<lparr>timers := (timers s)(i := None), intervals := intervals s - {i},
       objects := (objects s)(obj := (objects s obj)\<lparr>interval := None\<rparr>)\<rparr>"
  by (simp add: clearObjInterval_def)

lemma clearObjInterval_attr:
  "getAttr k (objects (clearObjInterval obj s) r) = getAttr k (objects s r)"
  by (cases k) (simp_all add: clearObjInterval_def getAttr_def split: option.splits)

lemma clearObjInterval_fields [simp]:
  "obj_y (objects (clearObjInterval obj s) r) = obj_y (objects s r)"
  "obj_h (objects (clearObjInterval obj s) r) = obj_h (objects s r)"
  "obj_z (objects (clearObjInterval obj s) r) = obj_z (objects s r)"
  "obj_w (objects (clearObjInterval obj s) r) = obj_w (objects s r)"
  "moveWith (objects (clearObjInterval obj s) r) = moveWith (objects s r)"
  by (simp_all add: clearObjInterval_def split: option.splits)

lemma clearObjInterval_other:
  "r \<noteq> obj \<Longrightarrow> objects (clearObjInterval obj s) r = objects s r"
  by (simp add: clearObjInterval_def split: option.splits)

lemma clearObjInterval_timers_cases:
  "timers (clearObjInterval obj s) i = None \<or> timers (clearObjInterval obj s) i = timers s i"
  by (simp add: clearObjInterval_def split: option.splits)

subsection \<open>The two branches of a tick\<close>

lemma shouldMove_same: "\<not> shouldMove c c"
  by (simp add: shouldMove_def stepIncrement_def stepDistance_def)

lemma tickBody_moving:
  assumes "shouldMove (getAttr (t_key t) (objects s (t_obj t))) (t_target t)"
  shows "tickBody t s =
     (s\<lparr>objects := (\<lambda>r. addAttr (passengerAttr (t_key t))
          (stepIncrement (getAttr (t_key t) (objects s (t_obj t))) (t_target t)
             * real (count_list (moveWith (objects s (t_obj t))) (Some r)))
          (if r = t_obj t
           then addAttr (t_key t)
                  (stepIncrement (getAttr (t_key t) (objects s (t_obj t))) (t_target t))
                  (objects s r)
           else objects s r))\<rparr>, None)"
  using assms by (simp add: tickBody_def Let_def foldl_moveEntry updObj_def fun_eq_iff)

lemma tickBody_done:
  assumes "\<not> shouldMove (getAttr (t_key t) (objects s (t_obj t))) (t_target t)"
  shows "tickBody t s = (clearObjInterval (t_obj t) s, t_next t)"
  using assms by (simp add: tickBody_def Let_def)

lemma ticks_dead: "timers s i = None \<Longrightarrow> ticks i n s = s"
  by (induction n) (simp_all add: tick_def)

lemma ticks_add: "ticks i (m + n) s = ticks i n (ticks i m s)"
  by (induction m arbitrary: s) simp_all

lemma ticks_numeral: "ticks i (numeral k) s = ticks i (pred_numeral k) (tick i s)"
  by (simp add: numeral_eq_Suc)

section \<open>C1: the horizontal press and the turn budget\<close>

text \<open>The turn guard of the source sits in \<open>activateHoriBtn\<close>: without turns it does nothing.\<close>

lemma activateHoriBtn_without_turns: "remainingTurns s \<le> 0 \<Longrightarrow> activateHoriBtn s = s"
  by (simp add: activateHoriBtn_def)

text \<open>The vertical press handler tests its button's lock.\<close>

lemma onVertBtnDown_locked: "locked (vertBtn s) \<Longrightarrow> onVertBtnDown s = s"
  by (simp add: onVertBtnDown_def)

text \<open>
  The horizontal press handler tests neither the turn budget nor the button's lock:
  whenever the rail has no timer it starts one, whatever \<open>remainingTurns\<close> is.
\<close>

lemma onHoriBtnDown_starts_timer:
  assumes "interval (objects s VertRail) = None"
  shows "timers (onHoriBtnDown s) (Suc (lastTimerId s)) \<noteq> None
       \<and> interval (objects (onHoriBtnDown s) VertRail) = Some (Suc (lastTimerId s))"
  using assms by (simp add: onHoriBtnDown_def moveObject_def updObj_def classRemove_def Let_def)

text \<open>
  C1. The specification says that with \<open>remainingTurns \<le> 0\<close> a press of the horizontal
  button creates no timer, starts no rail motion and changes no state. After the mount
  effect \<open>remainingTurns\<close> is 0, the horizontal button is locked and the rail has no
  timer; the source's handler then stores timer 2 on the rail, driving \<open>x\<close> toward 324,
  and the first tick of that timer moves the rail and the arm joint by 10.
\<close>

theorem onHoriBtnDown_moves_rail_without_turns:
  "remainingTurns (mountEffect exampleDom) = 0
   \<and> locked (horiBtn (mountEffect exampleDom))
   \<and> interval (objects (mountEffect exampleDom) VertRail) = None
   \<and> timers (mountEffect exampleDom) 2 = None
   \<and> timers (onHoriBtnDown (mountEffect exampleDom)) 2
       = Some \<lparr>t_obj = VertRail, t_key = X, t_target = 324,
               t_next = Some StopHoriBtnAndActivateVertBtn, t_period = 100\<rparr>
   \<and> interval (objects (onHoriBtnDown (mountEffect exampleDom)) VertRail) = Some 2
   \<and> obj_x (objects (mountEffect exampleDom) VertRail) = 0
   \<and> obj_x (objects (tick 2 (onHoriBtnDown (mountEffect exampleDom))) VertRail) = 10
   \<and> obj_x (objects (tick 2 (onHoriBtnDown (mountEffect exampleDom))) ArmJoint) = 10"
  by (simp add: mountEffect_def model_defs)

section \<open>C2: clicks on a toy\<close>

lemma collectToy_collectedNumber:
  "collectedNumber (final (collectToy toy s)) = collectedNumber s + 1"
  by (simp add: collectToy_def Let_def updObj_def split: option.splits)

lemma collectToy_collectPosts:
  "collectPosts (final (collectToy toy s)) = collectPosts s @ [toyType (objects s toy)]"
  by (simp add: collectToy_def Let_def updObj_def classAdd_def classRemove_def
      split: option.splits)

lemma collectToy_position:
  "obj_x (objects (final (collectToy toy s)) toy) = machineWidth s / 2 - obj_w (objects s toy) / 2
   \<and> obj_y (objects (final (collectToy toy s)) toy) = machineHeight s / 2 - obj_h (objects s toy) / 2
   \<and> obj_z (objects (final (collectToy toy s)) toy) = 7
   \<and> obj_w (objects (final (collectToy toy s)) toy) = obj_w (objects s toy)
   \<and> obj_h (objects (final (collectToy toy s)) toy) = obj_h (objects s toy)
   \<and> machineWidth (final (collectToy toy s)) = machineWidth s
   \<and> machineHeight (final (collectToy toy s)) = machineHeight s"
  by (simp add: collectToy_def Let_def updObj_def classAdd_def classRemove_def
      split: option.splits)

lemma clicks_collectedNumber: "collectedNumber (clicks toy n s) = collectedNumber s + n"
  by (induction n arbitrary: s) (simp_all add: onToyClick_def collectToy_collectedNumber)

lemma clicks_collectPosts: "length (collectPosts (clicks toy n s)) = length (collectPosts s) + n"
  by (induction n arbitrary: s) (simp_all add: onToyClick_def collectToy_collectPosts)

text \<open>
  C2, as stated, fails on the source: the listener registered by \<open>createToy\<close> runs
  \<open>collectToy\<close> on every click, and \<open>collectToy\<close> has no test for an earlier
  collection. Two clicks on the first toy of the example count it twice and send two
  requests.
\<close>

theorem second_click_collects_again:
  "\<not> (collectedNumber (clicks (Toy 0) 2 exampleToys) \<le> collectedNumber exampleToys + 1
      \<and> length (collectPosts (clicks (Toy 0) 2 exampleToys))
           \<le> length (collectPosts exampleToys) + 1)"
  by (simp add: clicks_collectedNumber clicks_collectPosts)

text \<open>
  C2, amended. Every click on a toy runs the collection handler: it puts the toy at the
  display slot in the middle of the machine (so a further click leaves it where it is),
  adds 1 to \<open>collectedNumber\<close> and sends one request for the toy's type; \<open>n\<close> clicks
  on a toy add exactly \<open>n\<close> to \<open>collectedNumber\<close> and send \<open>n\<close> requests.
\<close>

theorem every_click_collects:
  "collectedNumber (onToyClick toy s) = collectedNumber s + 1
   \<and> collectPosts (onToyClick toy s) = collectPosts s @ [toyType (objects s toy)]
   \<and> obj_x (objects (onToyClick toy s) toy) = machineWidth s / 2 - obj_w (objects s toy) / 2
   \<and> obj_y (objects (onToyClick toy s) toy) = machineHeight s / 2 - obj_h (objects s toy) / 2
   \<and> obj_z (objects (onToyClick toy s) toy) = 7
   \<and> obj_x (objects (onToyClick toy (onToyClick toy s)) toy) = obj_x (objects (onToyClick toy s) toy)
   \<and> obj_y (objects (onToyClick toy (onToyClick toy s)) toy) = obj_y (objects (onToyClick toy s) toy)
   \<and> collectedNumber (clicks toy n s) = collectedNumber s + n
   \<and> length (collectPosts (clicks toy n s)) = length (collectPosts s) + n"
  unfolding onToyClick_def
  by (simp add: collectToy_collectedNumber collectToy_collectPosts collectToy_position
      clicks_collectedNumber clicks_collectPosts)

section \<open>C3: the rotation of a grabbed toy\<close>

lemma js_rem_360:
  "js_rem a 360 = (if a < 0 \<and> a mod 360 \<noteq> 0 then a mod 360 - 360 else a mod 360)"
  unfolding js_rem_def by (auto simp: sgn_if zmod_zminus1_eq_if)

lemma adjustAngle_mod: "adjustAngle a = a mod 360"
  unfolding adjustAngle_def Let_def js_rem_360 by (auto simp: not_less)

lemma setRotateAngle_stores:
  "angle (objects (final (setRotateAngle (\<lambda>dy dx. d) toy
             (updObj toy (\<lambda>ob. ob\<lparr>clawPos := Some c\<rparr>) s))) toy)
     = rotateAngle (d - 90)"
  by (cases c) (simp add: setRotateAngle_def updObj_def Let_def)

text \<open>
  C3, as stated, fails on the source. The toy grabbed in the example has the raw angle
  \<open>65 - 90 = -25\<close>; the specification's rule gives \<open>-25\<close>, the source stores \<open>25\<close>.
\<close>

theorem stored_rotation_differs_from_rule:
  "\<not> angle (objects exampleGrabbed (Toy 1)) = spec_normalize (65 - 90)"
  by (simp add: example_defs model_defs spec_normalize_def)

text \<open>
  C3, amended. For every integer raw angle \<open>\<theta>\<close> the stored rotation is the negation of
  the rule's result: after folding into \<open>[0, 360)\<close>, values below 180 are negated and
  values from 180 on are mapped to \<open>360 - value\<close>. The result lies in \<open>(-180, 180]\<close>,
  and \<open>\<theta>\<close> plus any integer multiple of 360 gives the same result.
\<close>

theorem stored_rotation_is_negated_rule:
  "rotateAngle \<theta> = - spec_normalize \<theta>
   \<and> - 180 < rotateAngle \<theta> \<and> rotateAngle \<theta> \<le> 180
   \<and> rotateAngle (\<theta> + 360 * k) = rotateAngle \<theta>
   \<and> angle (objects (final (setRotateAngle (\<lambda>dy dx. \<theta> + 90) toy
               (updObj toy (\<lambda>ob. ob\<lparr>clawPos := Some c\<rparr>) s))) toy)
        = rotateAngle \<theta>"
proof -
  have 1: "rotateAngle \<theta> = - spec_normalize \<theta>"
    unfolding rotateAngle_def spec_normalize_def adjustAngle_mod Let_def by simp
  have 2: "- 180 < rotateAngle \<theta> \<and> rotateAngle \<theta> \<le> 180"
    unfolding rotateAngle_def adjustAngle_mod Let_def by (simp; presburger)
  have 3: "rotateAngle (\<theta> + 360 * k) = rotateAngle \<theta>"
    unfolding rotateAngle_def adjustAngle_mod Let_def by simp
  show ?thesis using 1 2 3 setRotateAngle_stores [of "\<theta> + 90" toy c s] by simp
qed

section \<open>C4: the attached-object lists\<close>

subsection \<open>Only grabbing and dropping write to \<open>moveWith\<close>\<close>

lemma mw_invokeOpt: "moveWith (objects (invokeOpt nxt s) r) = moveWith (objects s r)"
  by (cases nxt) (simp_all add: invokeOpt_def invoke_moveWith)

lemma mw_moveObject: "moveWith (objects (moveObject c opts s) r) = moveWith (objects s r)"
  by (simp add: moveObject_def mw_invokeOpt Let_def split: option.splits)

lemma mw_resumeMove: "moveWith (objects (resumeMove c opts s) r) = moveWith (objects s r)"
  by (simp add: resumeMove_def mw_moveObject updObj_def)

lemma mw_tickBody: "moveWith (objects (fst (tickBody t s)) r) = moveWith (objects s r)"
  by (cases "shouldMove (getAttr (t_key t) (objects s (t_obj t))) (t_target t)")
     (simp_all add: tickBody_moving tickBody_done)

lemma mw_tick: "moveWith (objects (tick i s) r) = moveWith (objects s r)"
proof (cases "timers s i")
  case None
  then show ?thesis by (simp add: tick_def)
next
  case (Some t)
  obtain s1 nxt where b: "tickBody t s = (s1, nxt)" by (cases "tickBody t s")
  then have "moveWith (objects s1 r) = moveWith (objects s r)"
    using mw_tickBody [of t s r] by simp
  then show ?thesis using Some b by (simp add: tick_def mw_invokeOpt)
qed

lemma mw_stop: "moveWith (objects (stopHoriBtnAndActivateVertBtn s) r) = moveWith (objects s r)"
  by (simp add: stopHoriBtnAndActivateVertBtn_def updObj_def Let_def)

lemma mw_activate: "moveWith (objects (activateHoriBtn s) r) = moveWith (objects s r)"
  by (simp add: activateHoriBtn_def)

lemma mw_horiDown: "moveWith (objects (onHoriBtnDown s) r) = moveWith (objects s r)"
  by (simp add: onHoriBtnDown_def Let_def mw_moveObject updObj_def classRemove_def)

lemma mw_horiUp: "moveWith (objects (onHoriBtnUp s) r) = moveWith (objects s r)"
  by (simp add: onHoriBtnUp_def mw_stop)

lemma mw_vertDown: "moveWith (objects (onVertBtnDown s) r) = moveWith (objects s r)"
  by (simp add: onVertBtnDown_def mw_moveObject)

lemma mw_getClosestToy: "moveWith (objects (getClosestToy s) r) = moveWith (objects s r)"
  by (simp add: getClosestToy_def Let_def updObj_def split: list.splits)

lemma mw_vertUp: "moveWith (objects (onVertBtnUp s) r) = moveWith (objects s r)"
  by (simp add: onVertBtnUp_def Let_def mw_getClosestToy)

lemma mw_dropToyTimeout: "moveWith (objects (dropToyTimeout s) r) = moveWith (objects s r)"
  by (simp add: dropToyTimeout_def Let_def updObj_def classAdd_def classRemove_def mw_activate
      split: option.splits)

lemma mw_collectToy: "moveWith (objects (final (collectToy t s)) r) = moveWith (objects s r)"
  by (simp add: collectToy_def Let_def updObj_def classAdd_def classRemove_def
      split: option.splits)

lemma mw_createToy:
  "moveWith (objects (createToy idx jx jy s) r)
     = (if r = Toy (length (toyEls s)) \<and> idx < length (sortedToys s)
           \<and> toys s (sortedToys s ! idx) \<noteq> None
        then [] else moveWith (objects s r))"
  by (auto simp add: createToy_def Let_def split: option.splits)

lemma mw_setPassengers:
  "moveWith (objects (foldl (setPassenger v) s [VertRail, ArmJoint, Arm]) r)
     = (if r = VertRail \<or> r = ArmJoint \<or> r = Arm then setFirst v (moveWith (objects s r))
        else moveWith (objects s r))"
  by (simp add: setPassenger_def updObj_def)

lemma mw_grabToy:
  "moveWith (objects (final (grabToy f s)) r)
     = (if targetToy s \<noteq> None \<and> (r = VertRail \<or> r = ArmJoint \<or> r = Arm)
        then setFirst (targetToy s) (moveWith (objects s r))
        else moveWith (objects s r))"
proof (cases "targetToy s")
  case None
  then show ?thesis by (simp add: grabToy_def updObj_def classAdd_def)
next
  case (Some t)
  let ?s1 = "foldl (setPassenger (Some t)) s [VertRail, ArmJoint, Arm]"
  have "moveWith (objects (final (grabToy f s)) r) = moveWith (objects ?s1 r)"
    using Some
    by (auto simp add: grabToy_def setRotateAngle_def Let_def updObj_def classAdd_def
        split: option.splits outcome.splits prod.splits)
  then show ?thesis using Some mw_setPassengers [of "Some t" s r] by simp
qed

lemma mw_dropToy:
  "moveWith (objects (dropToy s) r)
     = (if targetToy s \<noteq> None \<and> (r = VertRail \<or> r = ArmJoint \<or> r = Arm)
        then setFirst None (moveWith (objects s r))
        else moveWith (objects s r))"
proof (cases "targetToy s")
  case None
  then show ?thesis by (simp add: dropToy_def Let_def updObj_def classAdd_def)
next
  case (Some t)
  let ?s1 = "updObj Arm (classAdd ''open'') s"
  let ?s2 = "updObj t (\<lambda>ob. ob\<lparr>obj_z := 3\<rparr>) ?s1"
  let ?s3 = "moveObject t
               \<lparr>moveKey = Y, target = Some (machineHeight ?s2 - obj_h (objects ?s2 t) - 30),
                moveTime = Some 50, next_cb = None\<rparr> ?s2"
  have t1: "targetToy ?s1 = Some t" using Some by (simp add: updObj_def)
  have d: "dropToy s = foldl (setPassenger None) ?s3 [VertRail, ArmJoint, Arm]"
    unfolding dropToy_def Let_def t1 by simp
  have m: "moveWith (objects ?s3 q) = moveWith (objects s q)" for q
    unfolding mw_moveObject by (simp add: updObj_def classAdd_def)
  show ?thesis unfolding d mw_setPassengers m using Some by simp
qed

subsection \<open>The shape is kept by every event\<close>

lemma setFirst_length: "length (setFirst v xs) = (if xs = [] then 1 else length xs)"
  by (cases xs) (simp_all add: setFirst_def)

lemma attachShape_setFirst:
  assumes "attachShape s"
    and "\<And>r. moveWith (objects s' r)
           = (if r = VertRail \<or> r = ArmJoint \<or> r = Arm then setFirst v (moveWith (objects s r))
              else moveWith (objects s r))"
  shows "attachShape s'"
  using assms(1) unfolding attachShape_def assms(2)
  by (auto simp: setFirst_length setFirst_def split: list.splits)

lemma attachShape_same:
  assumes "attachShape s" and "\<And>r. moveWith (objects s' r) = moveWith (objects s r)"
  shows "attachShape s'"
  using assms(1) unfolding attachShape_def assms(2) .

lemma attachShape_step:
  assumes a: "attachShape s"
  shows "attachShape (step s e)"
proof (cases e)
  case (EvTick i)
  show ?thesis unfolding EvTick step_def by (simp add: attachShape_same [OF a] mw_tick)
next
  case (EvMoveObject r opts)
  show ?thesis unfolding EvMoveObject step_def
    by (simp add: attachShape_same [OF a] mw_moveObject)
next
  case (EvResumeMove r opts)
  show ?thesis unfolding EvResumeMove step_def
    by (simp add: attachShape_same [OF a] mw_resumeMove)
next
  case (EvClearObjInterval r)
  show ?thesis unfolding EvClearObjInterval step_def by (simp add: attachShape_same [OF a])
next
  case EvHoriBtnDown
  show ?thesis unfolding EvHoriBtnDown step_def by (simp add: attachShape_same [OF a] mw_horiDown)
next
  case EvHoriBtnUp
  show ?thesis unfolding EvHoriBtnUp step_def by (simp add: attachShape_same [OF a] mw_horiUp)
next
  case EvVertBtnDown
  show ?thesis unfolding EvVertBtnDown step_def by (simp add: attachShape_same [OF a] mw_vertDown)
next
  case EvVertBtnUp
  show ?thesis unfolding EvVertBtnUp step_def by (simp add: attachShape_same [OF a] mw_vertUp)
next
  case EvGetClosestToy
  show ?thesis unfolding EvGetClosestToy step_def
    by (simp add: attachShape_same [OF a] mw_getClosestToy)
next
  case (EvGrabToy f)
  show ?thesis
  proof (cases "targetToy s")
    case None
    then show ?thesis unfolding EvGrabToy step_def
      by (simp add: attachShape_same [OF a] mw_grabToy)
  next
    case (Some t)
    then show ?thesis unfolding EvGrabToy step_def
      by (simp add: attachShape_setFirst [OF a, where v = "Some t"] mw_grabToy)
  qed
next
  case EvDropToy
  show ?thesis
  proof (cases "targetToy s")
    case None
    then show ?thesis unfolding EvDropToy step_def
      by (simp add: attachShape_same [OF a] mw_dropToy)
  next
    case (Some t)
    then show ?thesis unfolding EvDropToy step_def
      by (simp add: attachShape_setFirst [OF a, where v = None] mw_dropToy)
  qed
next
  case EvDropToyTimeout
  show ?thesis unfolding EvDropToyTimeout step_def
    by (simp add: attachShape_same [OF a] mw_dropToyTimeout)
next
  case EvActivateHoriBtn
  show ?thesis unfolding EvActivateHoriBtn step_def
    by (simp add: attachShape_same [OF a] mw_activate)
next
  case (EvCreateToy idx jx jy)
  show ?thesis using a unfolding EvCreateToy attachShape_def step_def
    by (simp add: mw_createToy)
next
  case (EvToyClick r)
  show ?thesis unfolding EvToyClick step_def
    by (simp add: attachShape_same [OF a] mw_collectToy onToyClick_def)
next
  case EvCollectToyTimeout
  show ?thesis using a unfolding EvCollectToyTimeout step_def
    by (simp add: attachShape_def collectToyTimeout_def)
next
  case (EvTurnsUpdated n)
  show ?thesis using a unfolding EvTurnsUpdated step_def
    by (simp add: attachShape_def turnsUpdated_def)
next
  case (EvCatalog cat order)
  show ?thesis using a unfolding EvCatalog step_def by (simp add: attachShape_def)
qed

lemma attachShape_mount: "attachShape (mountObjects d)"
  by (simp add: attachShape_def mountObjects_def createWorldObject_def Let_def)

lemma attachShape_run: "attachShape s \<Longrightarrow> attachShape (run evs s)"
  unfolding run_def by (induction evs arbitrary: s) (simp_all add: attachShape_step)

lemma objectCount_le: "objectCount ms \<le> length ms"
  by (simp add: objectCount_def)

lemma attachShape_counts:
  assumes "attachShape s"
  shows "objectCount (moveWith (objects s VertRail)) \<le> 2
       \<and> objectCount (moveWith (objects s ArmJoint)) \<le> 1
       \<and> objectCount (moveWith (objects s Arm)) \<le> 1
       \<and> objectCount (moveWith (objects s (Toy n))) = 0"
proof -
  have r: "length (moveWith (objects s VertRail)) = 2"
    using assms by (auto simp: attachShape_def split: list.splits)
  have j: "length (moveWith (objects s ArmJoint)) \<le> 1"
    and a: "length (moveWith (objects s Arm)) \<le> 1"
    and t: "moveWith (objects s (Toy n)) = []"
    using assms by (simp_all add: attachShape_def)
  have "objectCount (moveWith (objects s VertRail)) \<le> 2"
    using objectCount_le [of "moveWith (objects s VertRail)"] r by simp
  moreover have "objectCount (moveWith (objects s ArmJoint)) \<le> 1"
    using objectCount_le [of "moveWith (objects s ArmJoint)"] j by linarith
  moreover have "objectCount (moveWith (objects s Arm)) \<le> 1"
    using objectCount_le [of "moveWith (objects s Arm)"] a by linarith
  moreover have "objectCount (moveWith (objects s (Toy n))) = 0"
    by (simp add: t objectCount_def)
  ultimately show ?thesis by simp
qed

lemma attachShape_attach:
  assumes "attachShape s" and "targetToy s = Some t"
  shows "moveWith (objects (final (grabToy f s)) VertRail) = [Some t, Some ArmJoint]
       \<and> moveWith (objects (final (grabToy f s)) ArmJoint) = [Some t]
       \<and> moveWith (objects (final (grabToy f s)) Arm) = [Some t]"
  using assms unfolding mw_grabToy attachShape_def
  by (auto simp: setFirst_def split: list.splits)

lemma attachShape_detach:
  assumes "attachShape s" and "targetToy s = Some t"
  shows "moveWith (objects (dropToy s) VertRail) = [None, Some ArmJoint]
       \<and> moveWith (objects (dropToy s) ArmJoint) = [None]
       \<and> moveWith (objects (dropToy s) Arm) = [None]"
  using assms unfolding mw_dropToy attachShape_def
  by (auto simp: setFirst_def split: list.splits)

text \<open>
  C4, as stated, fails on the source: the mount effect gives the rail the list
  \<open>[null, armJoint]\<close>, and \<open>grabToy\<close> writes the toy into slot 0 of it, so after a grab
  the rail's list holds two objects.
\<close>

theorem rail_list_holds_two_objects:
  "\<not> objectCount (moveWith (objects exampleGrabbed VertRail)) \<le> 1"
  by (simp add: example_defs model_defs)

text \<open>
  C4, amended. At all times the rail's list has two slots of which the second holds the
  arm joint, the joint's and the arm's lists have at most one slot and a toy's list is
  empty; so the rail's list holds at most two objects and every other list at most one.
  Attaching writes the targeted toy into slot 0 of the rail's, the joint's and the arm's
  list: it is the sole entry of the joint's and the arm's list and stands before the joint
  in the rail's. Detaching writes \<open>null\<close> into slot 0 of the three lists; the lists keep
  their slots and the rail's keeps the joint.
\<close>

theorem attached_lists_shape:
  "attachShape (run evs (mountObjects d))
   \<and> (attachShape s \<longrightarrow>
        objectCount (moveWith (objects s VertRail)) \<le> 2
        \<and> objectCount (moveWith (objects s ArmJoint)) \<le> 1
        \<and> objectCount (moveWith (objects s Arm)) \<le> 1
        \<and> objectCount (moveWith (objects s (Toy n))) = 0)
   \<and> (attachShape s \<and> targetToy s = Some t \<longrightarrow>
        moveWith (objects (final (grabToy f s)) VertRail) = [Some t, Some ArmJoint]
        \<and> moveWith (objects (final (grabToy f s)) ArmJoint) = [Some t]
        \<and> moveWith (objects (final (grabToy f s)) Arm) = [Some t]
        \<and> moveWith (objects (dropToy s) VertRail) = [None, Some ArmJoint]
        \<and> moveWith (objects (dropToy s) ArmJoint) = [None]
        \<and> moveWith (objects (dropToy s) Arm) = [None])"
  using attachShape_run [OF attachShape_mount, of evs d] attachShape_counts [of s n]
    attachShape_attach [of s t f] attachShape_detach [of s t]
  by blast

theorem attached_lists_shape_witness:
  "attachShape (getClosestToy exampleAim)
   \<and> targetToy (getClosestToy exampleAim) = Some (Toy 1)
   \<and> attachShape (run [EvHoriBtnDown, EvTick 1] (mountObjects exampleDom))
   \<and> objectCount (moveWith (objects (getClosestToy exampleAim) VertRail)) \<le> 2
   \<and> moveWith (objects exampleGrabbed VertRail) = [Some (Toy 1), Some ArmJoint]
   \<and> moveWith (objects exampleGrabbed ArmJoint) = [Some (Toy 1)]
   \<and> moveWith (objects exampleGrabbed Arm) = [Some (Toy 1)]
   \<and> moveWith (objects (dropToy (getClosestToy exampleAim)) VertRail) = [None, Some ArmJoint]
   \<and> moveWith (objects (dropToy (getClosestToy exampleAim)) ArmJoint) = [None]
   \<and> moveWith (objects (dropToy (getClosestToy exampleAim)) Arm) = [None]"
proof -
  have sh: "attachShape (getClosestToy exampleAim)"
    by (simp add: attachShape_def example_defs model_defs)
  have tg: "targetToy (getClosestToy exampleAim) = Some (Toy 1)"
    by (simp add: example_defs model_defs)
  show ?thesis
    using sh tg
      attached_lists_shape [of "[EvHoriBtnDown, EvTick 1]" exampleDom
        "getClosestToy exampleAim" 0 "Toy 1" "\<lambda>dy dx. 65"]
    by (simp add: exampleGrabbed_def)
qed

section \<open>C5: a move request on a moving object\<close>



section \<open>C6: cancelling and resuming a move\<close>

text \<open>
  C6. The rail's \<open>x\<close> is driven from 0 toward 100. After three ticks it is 30 and no
  callback has run; \<open>clearObjInterval\<close> cancels the move (a \<open>moveObject\<close> call without
  a callback cancels it in the same way) and leaves no timer. \<open>resumeMove\<close> toward 100
  starts timer 2: after seven of its ticks \<open>x\<close> is exactly 100, the eighth tick invokes
  the callback and removes the timer, and however many ticks are counted from then on
  \<open>x\<close> stays 100 and the callback has been invoked exactly once. The uninterrupted move
  reaches 100 and invokes the callback exactly once as well, at its eleventh tick.
\<close>

theorem cancel_and_resume_equivalence:
  "obj_x (objects (mountObjects exampleDom) VertRail) = 0
   \<and> obj_x (objects (ticks 1 3 exampleStarted) VertRail) = 30
   \<and> invoked (ticks 1 3 exampleStarted) = []
   \<and> moveObject VertRail (exampleOpts\<lparr>next_cb := None\<rparr>) (ticks 1 3 exampleStarted)
       = exampleCancelled
   \<and> obj_x (objects exampleCancelled VertRail) = 30
   \<and> timers exampleCancelled = Map.empty
   \<and> invoked exampleCancelled = []
   \<and> obj_x (objects (ticks 2 7 exampleResumed) VertRail) = 100
   \<and> invoked (ticks 2 7 exampleResumed) = []
   \<and> obj_x (objects (ticks 2 (8 + n) exampleResumed) VertRail) = 100
   \<and> invoked (ticks 2 (8 + n) exampleResumed) = [External 0]
   \<and> timers (ticks 2 (8 + n) exampleResumed) = Map.empty
   \<and> obj_x (objects (ticks 1 (11 + n) exampleStarted) VertRail) = 100
   \<and> invoked (ticks 1 (11 + n) exampleStarted) = [External 0]
   \<and> length (invoked (ticks 2 (8 + n) exampleResumed))
       = length (invoked (ticks 1 (11 + n) exampleStarted))"
proof -
  have a: "obj_x (objects (mountObjects exampleDom) VertRail) = 0"
    by (simp add: model_defs)
  have b: "obj_x (objects (ticks 1 3 exampleStarted) VertRail) = 30
           \<and> invoked (ticks 1 3 exampleStarted) = []"
    by (simp add: example_defs model_defs ticks_numeral)
  have c: "moveObject VertRail (exampleOpts\<lparr>next_cb := None\<rparr>) (ticks 1 3 exampleStarted)
             = exampleCancelled"
    by (simp add: example_defs model_defs ticks_numeral)
  have d: "obj_x (objects exampleCancelled VertRail) = 30
           \<and> timers exampleCancelled = Map.empty \<and> invoked exampleCancelled = []"
    by (simp add: example_defs model_defs ticks_numeral)
  have e: "obj_x (objects (ticks 2 7 exampleResumed) VertRail) = 100
           \<and> invoked (ticks 2 7 exampleResumed) = []"
    by (simp add: example_defs model_defs ticks_numeral)
  have f: "obj_x (objects (ticks 2 8 exampleResumed) VertRail) = 100
           \<and> invoked (ticks 2 8 exampleResumed) = [External 0]
           \<and> timers (ticks 2 8 exampleResumed) = Map.empty"
    by (simp add: example_defs model_defs ticks_numeral)
  have g: "obj_x (objects (ticks 1 11 exampleStarted) VertRail) = 100
           \<and> invoked (ticks 1 11 exampleStarted) = [External 0]
           \<and> timers (ticks 1 11 exampleStarted) = Map.empty"
    by (simp add: example_defs model_defs ticks_numeral)
  have f': "ticks 2 (8 + n) exampleResumed = ticks 2 8 exampleResumed"
    unfolding ticks_add using f by (simp add: ticks_dead)
  have g': "ticks 1 (11 + n) exampleStarted = ticks 1 11 exampleStarted"
    unfolding ticks_add using g by (simp add: ticks_dead)
  show ?thesis
    unfolding f' g' using a b c d e f g by simp
qed

section \<open>C7: targeting\<close>

lemma sort_key_head:
  assumes "sort_key f xs = y # ys"
  shows "y \<in> set xs \<and> (\<forall>x \<in> set xs. f y \<le> f x)"
proof -
  have "set (sort_key f xs) = set xs" by simp
  then have s: "set xs = insert y (set ys)" using assms by simp
  have "sorted (map f (sort_key f xs))" by (rule sorted_sort_key)
  then have "\<forall>x \<in> set ys. f y \<le> f x" using assms by simp
  then show ?thesis using s by auto
qed

text \<open>A miss: when no toy overlaps the claw, targeting changes nothing.\<close>

lemma getClosestToy_miss:
  assumes "\<forall>t \<in> set (toyEls s). \<not> doOverlap (rectOf (objects s t)) (clawRect s)"
  shows "getClosestToy s = s"
proof -
  from assms have "filter (\<lambda>t. doOverlap (rectOf (objects s t)) (clawRect s)) (toyEls s) = []"
    by (auto simp: filter_empty_conv)
  then show ?thesis by (simp add: getClosestToy_def Let_def)
qed

text \<open>
  C7. A toy overlaps the claw exactly when the claw's anchor point is strictly between the
  toy's left and right edges and strictly between its top and bottom edges. Whenever some
  spawned toy overlaps, targeting stores as \<open>targetToy\<close> a spawned, overlapping toy whose
  index is at least the index of every spawned overlapping toy.
\<close>

theorem getClosestToy_selects_greatest_index:
  "(doOverlap (rectOf ob) c \<longleftrightarrow>
      obj_x ob < rect_x c \<and> rect_x c < obj_x ob + obj_w ob
      \<and> obj_y ob < rect_y c \<and> rect_y c < obj_y ob + obj_h ob)
   \<and> ((\<exists>t \<in> set (toyEls s). doOverlap (rectOf (objects s t)) (clawRect s))
        \<longrightarrow> (\<exists>w. targetToy (getClosestToy s) = Some w
                 \<and> w \<in> set (toyEls s)
                 \<and> doOverlap (rectOf (objects s w)) (clawRect s)
                 \<and> (\<forall>u \<in> set (toyEls s). doOverlap (rectOf (objects s u)) (clawRect s)
                        \<longrightarrow> index (objects s u) \<le> index (objects s w))))"
proof -
  let ?ov = "filter (\<lambda>t. doOverlap (rectOf (objects s t)) (clawRect s)) (toyEls s)"
  let ?key = "\<lambda>t. - int (index (objects s t))"
  have A: "doOverlap (rectOf ob) c \<longleftrightarrow>
      obj_x ob < rect_x c \<and> rect_x c < obj_x ob + obj_w ob
      \<and> obj_y ob < rect_y c \<and> rect_y c < obj_y ob + obj_h ob"
    by (auto simp: doOverlap_def rectOf_def)
  have B: "\<exists>w. targetToy (getClosestToy s) = Some w
                 \<and> w \<in> set (toyEls s)
                 \<and> doOverlap (rectOf (objects s w)) (clawRect s)
                 \<and> (\<forall>u \<in> set (toyEls s). doOverlap (rectOf (objects s u)) (clawRect s)
                        \<longrightarrow> index (objects s u) \<le> index (objects s w))"
    if "\<exists>t \<in> set (toyEls s). doOverlap (rectOf (objects s t)) (clawRect s)"
  proof -
    from that have ne: "?ov \<noteq> []" by (auto simp: filter_empty_conv)
    then have "sort_key ?key ?ov \<noteq> []"
      by (metis length_sort length_0_conv)
    then obtain w ws where sw: "sort_key ?key ?ov = w # ws"
      by (cases "sort_key ?key ?ov") auto
    from sort_key_head [OF sw]
    have w: "w \<in> set ?ov" and mx: "\<forall>x \<in> set ?ov. ?key w \<le> ?key x" by auto
    have tgt: "targetToy (getClosestToy s) = Some w"
      using ne sw by (simp add: getClosestToy_def Let_def updObj_def)
    show ?thesis using tgt w mx by auto
  qed
  from A B show ?thesis by blast
qed

theorem getClosestToy_selects_greatest_index_witness:
  "Toy 0 \<in> set (toyEls exampleAim) \<and> Toy 1 \<in> set (toyEls exampleAim)
   \<and> doOverlap (rectOf (objects exampleAim (Toy 0))) (clawRect exampleAim)
   \<and> doOverlap (rectOf (objects exampleAim (Toy 1))) (clawRect exampleAim)
   \<and> index (objects exampleAim (Toy 0)) = 3 \<and> index (objects exampleAim (Toy 1)) = 7
   \<and> targetToy (getClosestToy exampleAim) = Some (Toy 1)"
  using getClosestToy_selects_greatest_index
          [of "objects exampleAim (Toy 0)" "clawRect exampleAim" exampleAim]
  by (simp add: example_defs model_defs)

section \<open>C8: a move of distance zero\<close>

text \<open>
  C8. The object has no timer and the target of the move, given or taken from the default
  pose, is the attribute's current value. The call itself starts a timer and invokes
  nothing; the first tick of that timer invokes the callback and removes the timer, so
  after any positive number of ticks the callback has been invoked exactly once and the
  attribute has its old value.
\<close>

theorem zero_distance_move_completes_once:
  assumes "interval (objects s obj) = None"
    and "target opts = Some (getAttr (moveKey opts) (objects s obj))
         \<or> (target opts = None
            \<and> defaultAttr (moveKey opts) (objects s obj) = getAttr (moveKey opts) (objects s obj))"
    and "next_cb opts = Some cb"
  shows "invoked (moveObject obj opts s) = invoked s
       \<and> timers (moveObject obj opts s) (Suc (lastTimerId s)) \<noteq> None
       \<and> invoked (ticks (Suc (lastTimerId s)) (Suc n) (moveObject obj opts s)) = invoked s @ [cb]
       \<and> getAttr (moveKey opts)
            (objects (ticks (Suc (lastTimerId s)) (Suc n) (moveObject obj opts s)) obj)
           = getAttr (moveKey opts) (objects s obj)
       \<and> timers (ticks (Suc (lastTimerId s)) (Suc n) (moveObject obj opts s))
            (Suc (lastTimerId s)) = None"
proof -
  let ?i = "Suc (lastTimerId s)"
  let ?k = "moveKey opts"
  let ?cur = "getAttr ?k (objects s obj)"
  let ?t = "\<lparr>t_obj = obj, t_key = ?k, t_target = ?cur, t_next = Some cb,
             t_period = (case moveTime opts of None \<Rightarrow> 100 | Some p \<Rightarrow> if p = 0 then 100 else p)\<rparr>"
  let ?s1 = "moveObject obj opts s"
  have tgt: "(case target opts of Some t \<Rightarrow> t | None \<Rightarrow> defaultAttr ?k (objects s obj)) = ?cur"
    using assms(2) by auto
  have s1: "?s1 = s\<lparr>timers := (timers s)(?i \<mapsto> ?t), lastTimerId := ?i,
                    objects := (objects s)(obj := (objects s obj)\<lparr>interval := Some ?i\<rparr>),
                    intervals := insert ?i (intervals s)\<rparr>"
    using assms(1,3) tgt by (simp add: moveObject_def Let_def)
  have cur1: "getAttr ?k (objects ?s1 obj) = ?cur"
    by (cases ?k) (simp_all add: s1 getAttr_def)
  have tm: "timers ?s1 ?i = Some ?t" by (simp add: s1)
  have body: "tickBody ?t ?s1 = (clearObjInterval obj ?s1, Some cb)"
    by (simp add: tickBody_def Let_def cur1 shouldMove_same)
  have iv: "interval (objects ?s1 obj) = Some ?i" by (simp add: s1)
  let ?s2 = "tick ?i ?s1"
  have s2: "?s2 = invoke cb (clearObjInterval obj ?s1)"
    by (simp add: tick_def tm body invokeOpt_def)
  have dead: "timers ?s2 ?i = None"
    by (simp add: s2 invoke_timers clearObjInterval_Some [OF iv])
  have inv2: "invoked ?s2 = invoked s @ [cb]"
    by (simp add: s2 invoke_invoked clearObjInterval_Some [OF iv]) (simp add: s1)
  have at2: "getAttr ?k (objects ?s2 obj) = ?cur"
    by (simp add: s2 invoke_attr clearObjInterval_attr cur1)
  have "ticks ?i (Suc n) ?s1 = ?s2"
    using ticks_dead [OF dead] by simp
  then show ?thesis using dead inv2 at2 tm by (simp add: s1)
qed

theorem zero_distance_move_completes_once_witness:
  "interval (objects (mountObjects exampleDom) VertRail) = None
   \<and> obj_x (objects (mountObjects exampleDom) VertRail) = 0
   \<and> invoked (moveObject VertRail (exampleOpts\<lparr>target := Some 0\<rparr>) (mountObjects exampleDom)) = []
   \<and> invoked (ticks 1 3 (moveObject VertRail (exampleOpts\<lparr>target := Some 0\<rparr>)
                           (mountObjects exampleDom))) = [External 0]
   \<and> obj_x (objects (ticks 1 3 (moveObject VertRail (exampleOpts\<lparr>target := Some 0\<rparr>)
                                  (mountObjects exampleDom))) VertRail) = 0"
proof -
  have h1: "interval (objects (mountObjects exampleDom) VertRail) = None"
    by (simp add: model_defs)
  have h2: "target (exampleOpts\<lparr>target := Some 0\<rparr>)
              = Some (getAttr (moveKey (exampleOpts\<lparr>target := Some 0\<rparr>))
                        (objects (mountObjects exampleDom) VertRail))
            \<or> (target (exampleOpts\<lparr>target := Some 0\<rparr>) = None
               \<and> defaultAttr (moveKey (exampleOpts\<lparr>target := Some 0\<rparr>))
                    (objects (mountObjects exampleDom) VertRail)
                  = getAttr (moveKey (exampleOpts\<lparr>target := Some 0\<rparr>))
                      (objects (mountObjects exampleDom) VertRail))"
    by (simp add: example_defs model_defs)
  have h3: "next_cb (exampleOpts\<lparr>target := Some 0\<rparr>) = Some (External 0)"
    by (simp add: example_defs)
  have x0: "obj_x (objects (mountObjects exampleDom) VertRail) = 0"
    by (simp add: model_defs)
  have l0: "lastTimerId (mountObjects exampleDom) = 0" "invoked (mountObjects exampleDom) = []"
    by (simp_all add: model_defs)
  have k: "moveKey (exampleOpts\<lparr>target := Some 0\<rparr>) = X"
    by (simp add: example_defs)
  show ?thesis
    using h1 x0 zero_distance_move_completes_once [OF h1 h2 h3, of 2]
    by (simp add: l0 k getAttr_def ticks_numeral)
qed

section \<open>C9: an attached toy follows the extension\<close>

lemma tick_H_step:
  assumes "timers s i = Some t" "t_key t = H"
    and "count_list (moveWith (objects s (t_obj t))) (Some toy) = 1"
  shows "obj_y (objects (tick i s) toy) - obj_h (objects (tick i s) (t_obj t))
           = obj_y (objects s toy) - obj_h (objects s (t_obj t))
       \<and> moveWith (objects (tick i s) (t_obj t)) = moveWith (objects s (t_obj t))
       \<and> (timers (tick i s) i = None \<or> timers (tick i s) i = Some t)
       \<and> (shouldMove (obj_h (objects s (t_obj t))) (t_target t) \<longrightarrow>
            obj_h (objects (tick i s) (t_obj t))
              = obj_h (objects s (t_obj t)) + stepIncrement (obj_h (objects s (t_obj t))) (t_target t)
            \<and> obj_y (objects (tick i s) toy)
              = obj_y (objects s toy) + stepIncrement (obj_h (objects s (t_obj t))) (t_target t))"
proof (cases "shouldMove (getAttr (t_key t) (objects s (t_obj t))) (t_target t)")
  case True
  note b = tickBody_moving [OF True]
  have yh: "obj_y (addAttr Y d ob) = obj_y ob + d" "obj_h (addAttr Y d ob) = obj_h ob"
     "obj_y (addAttr H d ob) = obj_y ob" "obj_h (addAttr H d ob) = obj_h ob + d" for d ob
    by (simp_all add: addAttr_def)
  show ?thesis
    using assms
    by (simp add: tick_def b invokeOpt_def passengerAttr_def yh getAttr_def)
next
  case False
  note b = tickBody_done [OF False]
  have nm: "\<not> shouldMove (obj_h (objects s (t_obj t))) (t_target t)"
    using False assms(2) by (simp add: getAttr_def)
  show ?thesis
    using assms nm clearObjInterval_timers_cases [of "t_obj t" s i]
    by (cases "t_next t")
       (auto simp: tick_def b invokeOpt_def invoke_y_h invoke_moveWith invoke_timers)
qed

lemma ticks_H_difference:
  assumes "timers s i = Some t" "t_key t = H"
    and "count_list (moveWith (objects s (t_obj t))) (Some toy) = 1"
  shows "obj_y (objects (ticks i n s) toy) - obj_y (objects s toy)
           = obj_h (objects (ticks i n s) (t_obj t)) - obj_h (objects s (t_obj t))"
  using assms
proof (induction n arbitrary: s)
  case 0
  then show ?case by simp
next
  case (Suc n)
  note st = tick_H_step [OF Suc.prems]
  show ?case
  proof (cases "timers (tick i s) i")
    case None
    then show ?thesis using st ticks_dead [OF None, of n] by simp
  next
    case (Some t')
    then have t': "timers (tick i s) i = Some t" using st by auto
    have "obj_y (objects (ticks i n (tick i s)) toy) - obj_y (objects (tick i s) toy)
           = obj_h (objects (ticks i n (tick i s)) (t_obj t)) - obj_h (objects (tick i s) (t_obj t))"
      using Suc.IH [OF t' Suc.prems(2)] st Suc.prems(3) by simp
    then show ?thesis using st by simp
  qed
qed

text \<open>
  In the states the program reaches, a toy in the arm's attached list is there once.
\<close>

lemma attachShape_toy_once:
  assumes "attachShape s" and "Some toy \<in> set (moveWith (objects s Arm))"
  shows "count_list (moveWith (objects s Arm)) (Some toy) = 1"
proof -
  have "length (moveWith (objects s Arm)) \<le> 1"
    using assms(1) by (simp add: attachShape_def)
  then show ?thesis
    using assms(2) by (cases "moveWith (objects s Arm)") auto
qed

text \<open>
  C9. Timer \<open>i\<close> drives the \<open>h\<close> of an object whose attached list holds the toy in one
  slot. A tick that moves adds the same signed step to the object's \<open>h\<close> and to the toy's
  \<open>y\<close>; so over any number of ticks of the timer the change of the toy's \<open>y\<close> equals
  the change of the object's \<open>h\<close>.
\<close>

theorem attached_toy_follows_extension:
  assumes "timers s i = Some t" "t_key t = H"
    and "count_list (moveWith (objects s (t_obj t))) (Some toy) = 1"
  shows "(shouldMove (obj_h (objects s (t_obj t))) (t_target t) \<longrightarrow>
            obj_h (objects (tick i s) (t_obj t))
              = obj_h (objects s (t_obj t)) + stepIncrement (obj_h (objects s (t_obj t))) (t_target t)
            \<and> obj_y (objects (tick i s) toy)
              = obj_y (objects s toy) + stepIncrement (obj_h (objects s (t_obj t))) (t_target t))
       \<and> obj_y (objects (ticks i n s) toy) - obj_y (objects s toy)
           = obj_h (objects (ticks i n s) (t_obj t)) - obj_h (objects s (t_obj t))"
  using tick_H_step [OF assms] ticks_H_difference [OF assms, of n] by blast

theorem attached_toy_follows_extension_witness:
  "timers exampleExtending 1
     = Some \<lparr>t_obj = Arm, t_key = H, t_target = 200, t_next = None, t_period = 100\<rparr>
   \<and> moveWith (objects exampleExtending Arm) = [Some (Toy 1)]
   \<and> shouldMove (obj_h (objects exampleExtending Arm)) 200
   \<and> obj_h (objects exampleExtending Arm) = 50
   \<and> obj_y (objects exampleExtending (Toy 1)) = 232
   \<and> obj_h (objects (ticks 1 3 exampleExtending) Arm) = 80
   \<and> obj_y (objects (ticks 1 3 exampleExtending) (Toy 1)) = 262"
proof -
  let ?t = "\<lparr>t_obj = Arm, t_key = H, t_target = 200, t_next = None, t_period = 100\<rparr>"
  have h1: "timers exampleExtending 1 = Some ?t"
    by (simp add: example_defs model_defs)
  have h2: "t_key ?t = H" by simp
  have mw: "moveWith (objects exampleExtending Arm) = [Some (Toy 1)]"
    by (simp add: example_defs model_defs)
  have h3: "count_list (moveWith (objects exampleExtending (t_obj ?t))) (Some (Toy 1)) = 1"
    by (simp add: mw)
  have v: "obj_h (objects exampleExtending Arm) = 50
           \<and> obj_y (objects exampleExtending (Toy 1)) = 232"
    by (simp add: example_defs model_defs)
  have sm: "shouldMove (obj_h (objects exampleExtending Arm)) 200"
    using v by (simp add: shouldMove_def stepIncrement_def stepDistance_def)
  have e: "obj_h (objects (ticks 1 3 exampleExtending) Arm) = 80"
    by (simp add: example_defs model_defs ticks_numeral)
  show ?thesis
    using h1 mw sm v e attached_toy_follows_extension [OF h1 h2 h3, of 3]
    by simp
qed

section \<open>C10: what a tick changes\<close>

text \<open>
  C10. Let \<open>t\<close> be the live timer \<open>i\<close>, driving attribute \<open>t_key t\<close> of object
  \<open>t_obj t\<close>. A tick that moves consists of the closure's body alone. The body leaves
  every object that is neither the driven object nor an entry of its attached list as it
  is, be it attached to a passenger or not; an \<open>x\<close>, \<open>y\<close> or \<open>h\<close> that changes is
  the driven attribute of the driven object, or the corresponding attribute of an entry of
  its attached list; no \<open>z\<close>, \<open>w\<close> or attached list changes. The completion callback,
  which the closure calls last on the tick that finds the target reached, is the caller's
  code and not part of the body.
\<close>

theorem tick_frame:
  assumes "timers s i = Some t"
  shows "(shouldMove (getAttr (t_key t) (objects s (t_obj t))) (t_target t)
            \<longrightarrow> tick i s = fst (tickBody t s))
       \<and> (\<forall>r. r \<noteq> t_obj t \<and> Some r \<notin> set (moveWith (objects s (t_obj t)))
            \<longrightarrow> objects (fst (tickBody t s)) r = objects s r)
       \<and> (\<forall>r a. getAttr a (objects (fst (tickBody t s)) r) \<noteq> getAttr a (objects s r)
            \<longrightarrow> (r = t_obj t \<and> a = t_key t)
                \<or> (Some r \<in> set (moveWith (objects s (t_obj t))) \<and> a = passengerAttr (t_key t)))
       \<and> (\<forall>r. obj_z (objects (fst (tickBody t s)) r) = obj_z (objects s r)
              \<and> obj_w (objects (fst (tickBody t s)) r) = obj_w (objects s r)
              \<and> moveWith (objects (fst (tickBody t s)) r) = moveWith (objects s r))"
proof (cases "shouldMove (getAttr (t_key t) (objects s (t_obj t))) (t_target t)")
  case True
  note b = tickBody_moving [OF True]
  have 1: "tick i s = fst (tickBody t s)"
    using assms by (simp add: tick_def b invokeOpt_def)
  have 2: "objects (fst (tickBody t s)) r = objects s r"
    if "r \<noteq> t_obj t \<and> Some r \<notin> set (moveWith (objects s (t_obj t)))" for r
    using that by (simp add: b addAttr_zero)
  have 3: "(r = t_obj t \<and> a = t_key t)
           \<or> (Some r \<in> set (moveWith (objects s (t_obj t))) \<and> a = passengerAttr (t_key t))"
    if "getAttr a (objects (fst (tickBody t s)) r) \<noteq> getAttr a (objects s r)" for r a
    using that
    by (cases "Some r \<in> set (moveWith (objects s (t_obj t)))")
       (auto simp: b getAttr_addAttr addAttr_zero split: if_splits)
  have 4: "obj_z (objects (fst (tickBody t s)) r) = obj_z (objects s r)
         \<and> obj_w (objects (fst (tickBody t s)) r) = obj_w (objects s r)
         \<and> moveWith (objects (fst (tickBody t s)) r) = moveWith (objects s r)" for r
    by (simp add: b)
  from 1 2 3 4 show ?thesis by blast
next
  case False
  note b = tickBody_done [OF False]
  show ?thesis using False
    by (simp add: b clearObjInterval_other clearObjInterval_attr)
qed

text \<open>
  In the example the rail carries the toy and the arm joint, and the joint carries the toy
  as well. One tick of the rail's timer moves the rail, the joint and the toy by 10 along
  \<open>x\<close>, the toy once and not a second time through the joint, and leaves the arm as it is.
\<close>

theorem tick_frame_witness:
  "timers exampleCarrying 1
     = Some \<lparr>t_obj = VertRail, t_key = X, t_target = 100, t_next = None, t_period = 100\<rparr>
   \<and> shouldMove (getAttr X (objects exampleCarrying VertRail)) 100
   \<and> moveWith (objects exampleCarrying VertRail) = [Some (Toy 1), Some ArmJoint]
   \<and> moveWith (objects exampleCarrying ArmJoint) = [Some (Toy 1)]
   \<and> objects (tick 1 exampleCarrying) Arm = objects exampleCarrying Arm
   \<and> objects (tick 1 exampleCarrying) (Toy 0) = objects exampleCarrying (Toy 0)
   \<and> obj_x (objects (tick 1 exampleCarrying) VertRail) = obj_x (objects exampleCarrying VertRail) + 10
   \<and> obj_x (objects (tick 1 exampleCarrying) ArmJoint) = obj_x (objects exampleCarrying ArmJoint) + 10
   \<and> obj_x (objects (tick 1 exampleCarrying) (Toy 1)) = obj_x (objects exampleCarrying (Toy 1)) + 10
   \<and> obj_y (objects (tick 1 exampleCarrying) (Toy 1)) = obj_y (objects exampleCarrying (Toy 1))"
proof -
  let ?t = "\<lparr>t_obj = VertRail, t_key = X, t_target = 100, t_next = None, t_period = 100\<rparr>"
  have h: "timers exampleCarrying 1 = Some ?t"
    by (simp add: example_defs model_defs)
  have sm: "shouldMove (getAttr X (objects exampleCarrying VertRail)) 100"
    by (simp add: example_defs model_defs)
  have mw: "moveWith (objects exampleCarrying VertRail) = [Some (Toy 1), Some ArmJoint]"
    "moveWith (objects exampleCarrying ArmJoint) = [Some (Toy 1)]"
    by (simp_all add: example_defs model_defs)
  have x: "obj_x (objects (tick 1 exampleCarrying) VertRail) = obj_x (objects exampleCarrying VertRail) + 10
     \<and> obj_x (objects (tick 1 exampleCarrying) ArmJoint) = obj_x (objects exampleCarrying ArmJoint) + 10
     \<and> obj_x (objects (tick 1 exampleCarrying) (Toy 1)) = obj_x (objects exampleCarrying (Toy 1)) + 10
     \<and> obj_y (objects (tick 1 exampleCarrying) (Toy 1)) = obj_y (objects exampleCarrying (Toy 1))"
    by (simp add: example_defs model_defs)
  have fr: "tick 1 exampleCarrying = fst (tickBody ?t exampleCarrying)
     \<and> (\<forall>r. r \<noteq> VertRail \<and> Some r \<notin> set (moveWith (objects exampleCarrying VertRail))
            \<longrightarrow> objects (fst (tickBody ?t exampleCarrying)) r = objects exampleCarrying r)"
    using tick_frame [OF h] sm by simp
  then have "objects (tick 1 exampleCarrying) Arm = objects exampleCarrying Arm"
    "objects (tick 1 exampleCarrying) (Toy 0) = objects exampleCarrying (Toy 0)"
    using mw by simp_all
  then show ?thesis using h sm mw x by simp
qed

end
